theory Spec2Isabelle
  imports Main "HOL-Library.Sublist"
begin

section \<open>Python values and strings\<close>

text \<open>
  The plugin is one Python class, \<^verbatim>\<open>Action\<close>, in \<^verbatim>\<open>venice_image_gen_button.py\<close>.
  A Python \<^verbatim>\<open>str\<close> is modelled as a \<open>string\<close> with one \<open>char\<close> per code point, so the
  model covers text whose code points are below 256; \<open>length\<close> counts code points as
  Python's \<^verbatim>\<open>len\<close> does. The character classes below are CPython's for those code points.
\<close>

definition code_point :: "char \<Rightarrow> nat" where
  "code_point c = of_char c"

definition newline :: char where
  "newline = CHR 0x0A"

text \<open>\<^verbatim>\<open>str.isspace\<close> on one character; also what \<^verbatim>\<open>\s\<close> matches and what \<^verbatim>\<open>str.strip()\<close> removes.\<close>

definition isspace :: "char \<Rightarrow> bool" where
  "isspace c \<longleftrightarrow>
     (9 \<le> code_point c \<and> code_point c \<le> 13) \<or> (28 \<le> code_point c \<and> code_point c \<le> 32)
     \<or> code_point c = 133 \<or> code_point c = 160"

text \<open>What \<^verbatim>\<open>\w\<close> matches in a \<^verbatim>\<open>str\<close> pattern: alphanumeric characters and the underscore.\<close>

definition isword :: "char \<Rightarrow> bool" where
  "isword c \<longleftrightarrow>
     (48 \<le> code_point c \<and> code_point c \<le> 57) \<or> (65 \<le> code_point c \<and> code_point c \<le> 90)
     \<or> code_point c = 95 \<or> (97 \<le> code_point c \<and> code_point c \<le> 122)
     \<or> code_point c \<in> {170, 178, 179, 181, 185, 186, 188, 189, 190}
     \<or> (192 \<le> code_point c \<and> code_point c \<le> 214) \<or> (216 \<le> code_point c \<and> code_point c \<le> 246)
     \<or> 248 \<le> code_point c"

definition lower_char :: "char \<Rightarrow> char" where
  "lower_char c =
     (if (65 \<le> code_point c \<and> code_point c \<le> 90) \<or> (192 \<le> code_point c \<and> code_point c \<le> 214)
         \<or> (216 \<le> code_point c \<and> code_point c \<le> 222)
      then char_of (code_point c + 32) else c)"

text \<open>\<^verbatim>\<open>str.lower()\<close>\<close>

definition str_lower :: "string \<Rightarrow> string" where
  "str_lower s = map lower_char s"

text \<open>\<^verbatim>\<open>str.strip()\<close> without arguments.\<close>

definition str_strip :: "string \<Rightarrow> string" where
  "str_strip s = rev (dropWhile isspace (rev (dropWhile isspace s)))"

text \<open>
  \<^verbatim>\<open>s.replace(old, new)\<close>: every occurrence of \<open>old\<close>, found from left to right without
  overlap, is replaced; an empty \<open>old\<close> matches before every character and at the end.
\<close>

function str_replace :: "string \<Rightarrow> string \<Rightarrow> string \<Rightarrow> string" where
  "str_replace [] old new = (if old = [] then new else [])"
| "str_replace (c # cs) old new =
     (if old = [] then new @ c # str_replace cs old new
      else if prefix old (c # cs) then new @ str_replace (drop (length old) (c # cs)) old new
      else c # str_replace cs old new)"
  by pat_completeness auto
termination
  by (relation "measure (\<lambda>(s, old, new). length s)") auto

text \<open>The operator \<^verbatim>\<open>sub in s\<close> on two strings.\<close>

fun str_contains :: "string \<Rightarrow> string \<Rightarrow> bool" where
  "str_contains sub [] \<longleftrightarrow> sub = []"
| "str_contains sub (c # cs) \<longleftrightarrow> prefix sub (c # cs) \<or> str_contains sub cs"

subsection \<open>Integer conversion\<close>

text \<open>
  \<^verbatim>\<open>int(s)\<close> for a string: surrounding whitespace is skipped, one sign is allowed, then
  decimal digits with single underscores between digits. Anything else raises
  \<^verbatim>\<open>ValueError\<close>, modelled as \<open>None\<close>; so does a literal of more digits than the
  interpreter's limit for integer strings.
\<close>

definition int_space :: "char \<Rightarrow> bool" where
  "int_space c \<longleftrightarrow>
     (9 \<le> code_point c \<and> code_point c \<le> 13) \<or> code_point c = 32
     \<or> code_point c = 133 \<or> code_point c = 160"

definition isdecimal :: "char \<Rightarrow> bool" where
  "isdecimal c \<longleftrightarrow> 48 \<le> code_point c \<and> code_point c \<le> 57"

definition digit_value :: "char \<Rightarrow> nat" where
  "digit_value c = code_point c - 48"

fun digit_run :: "string \<Rightarrow> nat list option" where
  "digit_run [] = None"
| "digit_run [c] = (if isdecimal c then Some [digit_value c] else None)"
| "digit_run (c # d # ds) =
     (if \<not> isdecimal c then None
      else map_option ((#) (digit_value c))
             (if d = CHR ''_'' then digit_run ds else digit_run (d # ds)))"

definition int_max_str_digits :: nat where
  "int_max_str_digits = 4300"

definition decimal_value :: "nat list \<Rightarrow> nat" where
  "decimal_value ds = foldl (\<lambda>a d. 10 * a + d) 0 ds"

definition py_int :: "string \<Rightarrow> int option" where
  "py_int s =
     (let t = rev (dropWhile int_space (rev (dropWhile int_space s)));
          negative = (t \<noteq> [] \<and> hd t = CHR ''-'');
          body = (if t \<noteq> [] \<and> (hd t = CHR ''-'' \<or> hd t = CHR ''+'') then tl t else t)
      in case digit_run body of
           None \<Rightarrow> None
         | Some ds \<Rightarrow>
             if length ds > int_max_str_digits then None
             else Some (if negative then - int (decimal_value ds) else int (decimal_value ds)))"

subsection \<open>The regular expression of the override parser\<close>

text \<open>
  \<^verbatim>\<open>override_pattern = r"(\w+):\s*([^\n]+)"\<close>.
  \<open>match_at s\<close> is one attempt of the pattern at the first character of \<open>s\<close>: the two
  groups and the text after the match. The key is the whole run of word characters, since
  the colon that must follow is not one. \<^verbatim>\<open>\s*\<close> is greedy and also takes newlines; when
  the whitespace after the colon runs to the end of the text, the matcher backtracks to the
  last character of that run which is not a newline, and the value is that one character.
\<close>

definition match_at :: "string \<Rightarrow> (string \<times> string \<times> string) option" where
  "match_at s =
     (let key = takeWhile isword s; r1 = dropWhile isword s in
      if key = [] \<or> r1 = [] \<or> hd r1 \<noteq> CHR '':'' then None
      else
        let ws = takeWhile isspace (tl r1); r3 = dropWhile isspace (tl r1) in
        if r3 \<noteq> [] then
          Some (key, takeWhile (\<lambda>c. c \<noteq> newline) r3, dropWhile (\<lambda>c. c \<noteq> newline) r3)
        else
          let back = dropWhile (\<lambda>c. c = newline) (rev ws) in
          if back = [] then None
          else Some (key, [hd back], takeWhile (\<lambda>c. c = newline) (rev ws)))"

text \<open>
  \<^verbatim>\<open>re.findall(override_pattern, prompt)\<close>: the matches from left to right; the search
  resumes where the previous match ended, and one character further after a failed attempt.
\<close>

function findall :: "string \<Rightarrow> (string \<times> string) list" where
  "findall [] = []"
| "findall (c # cs) =
     (case match_at (c # cs) of
        None \<Rightarrow> findall cs
      | Some (key, val, rest) \<Rightarrow> (key, val) # findall rest)"
  by pat_completeness auto
termination
proof (relation "measure length")
  show "wf (measure length)" by simp
next
  fix c cs m k y v rest
  assume "match_at (c # cs) = Some m" and "(k, y) = m" and "(v, rest) = y"
  then have assms: "match_at (c # cs) = Some (k, v, rest)" by simp
  let ?s = "c # cs"
  have "length rest < length ?s"
  proof -
    let ?r1 = "dropWhile isword ?s"
    let ?t = "tl ?r1"
    from assms have r1: "?r1 \<noteq> []"
      by (auto simp: match_at_def Let_def split: if_splits)
    have l1: "length ?t < length ?s"
      using r1 length_dropWhile_le [of isword ?s] by (cases ?r1) auto
    have split_ws: "length (takeWhile isspace ?t) + length (dropWhile isspace ?t) = length ?t"
      by (metis length_append takeWhile_dropWhile_id)
    show ?thesis
    proof (cases "dropWhile isspace ?t = []")
      case False
      with assms have "rest = dropWhile (\<lambda>c. c \<noteq> newline) (dropWhile isspace ?t)"
        by (auto simp: match_at_def Let_def split: if_splits)
      then have "length rest \<le> length (dropWhile isspace ?t)"
        by (simp add: length_dropWhile_le)
      with split_ws l1 show ?thesis by linarith
    next
      case True
      with assms have "rest = takeWhile (\<lambda>c. c = newline) (rev (takeWhile isspace ?t))"
        by (auto simp: match_at_def Let_def split: if_splits)
      then have "length rest \<le> length (takeWhile isspace ?t)"
        by (metis length_rev length_takeWhile_le)
      with split_ws l1 show ?thesis by linarith
    qed
  qed
  then show "(rest, c # cs) \<in> measure length" by simp
qed simp

section \<open>Values, exceptions and notifications\<close>

text \<open>
  The chat body and the decoded JSON response are Python objects built from \<^verbatim>\<open>None\<close>,
  booleans, integers, floats, strings, lists and dicts. A dict is an association list with
  distinct string keys; a finite float is \<open>PFloat m e\<close>, the number \<open>m * 2 ^ e\<close>.
\<close>

datatype pyval =
    PNone
  | PBool bool
  | PInt int
  | PFloat int int
  | PStr string
  | PList "pyval list"
  | PDict "(string \<times> pyval) list"

fun type_name :: "pyval \<Rightarrow> string" where
  "type_name PNone = ''NoneType''"
| "type_name (PBool b) = ''bool''"
| "type_name (PInt n) = ''int''"
| "type_name (PFloat m e) = ''float''"
| "type_name (PStr s) = ''str''"
| "type_name (PList xs) = ''list''"
| "type_name (PDict d) = ''dict''"

text \<open>The truth value Python gives an object in a condition.\<close>

fun truthy :: "pyval \<Rightarrow> bool" where
  "truthy PNone = False"
| "truthy (PBool b) = b"
| "truthy (PInt n) = (n \<noteq> 0)"
| "truthy (PFloat m e) = (m \<noteq> 0)"
| "truthy (PStr s) = (s \<noteq> [])"
| "truthy (PList xs) = (xs \<noteq> [])"
| "truthy (PDict d) = (d \<noteq> [])"

text \<open>
  An exception is its class and the text \<^verbatim>\<open>str(e)\<close> gives. Only subclasses of
  \<^verbatim>\<open>Exception\<close> occur, so the handler of \<^verbatim>\<open>action\<close> catches every one of them.
\<close>

datatype exn_class =
    IndexError | KeyError | TypeError | AttributeError
  | Timeout | ConnectionError | HTTPError | JSONDecodeError

datatype exn = Raised exn_class string

fun str_exn :: "exn \<Rightarrow> string" where
  "str_exn (Raised cls msg) = msg"

definition quoted :: "string \<Rightarrow> string" where
  "quoted s = CHR 0x27 # s @ [CHR 0x27]"

text \<open>
  What the event emitter receives: \<^verbatim>\<open>{"type": "status", "data": {"description": d, "done": b}}\<close>
  is \<open>Status d b\<close>, and \<^verbatim>\<open>{"type": "message", "data": {"content": c, "role": r}}\<close> is
  \<open>Message c r\<close>.
\<close>

datatype notification = Status string bool | Message string string

section \<open>The override parser\<close>

definition recognized_keys :: "string list" where
  "recognized_keys =
     [''width'', ''height'', ''steps'', ''seed'', ''cfg_scale'', ''style_preset'', ''negative_prompt'']"

definition numeric_keys :: "string list" where
  "numeric_keys = [''width'', ''height'', ''steps'', ''seed'', ''cfg_scale'']"

text \<open>
  The body of the loop over the matches (lines 175 to 194), on the pair of
  \<^verbatim>\<open>cleaned_prompt\<close> and \<^verbatim>\<open>overrides\<close>. The removal and the trimming come before the
  integer conversion, whose \<^verbatim>\<open>ValueError\<close> only skips the assignment.
\<close>

fun process_matches ::
  "(string \<times> string) list \<Rightarrow> string \<times> (string \<rightharpoonup> pyval) \<Rightarrow> string \<times> (string \<rightharpoonup> pyval)" where
  "process_matches [] st = st"
| "process_matches ((k, val) # ms) (cleaned, overrides) =
     (let key = str_lower k in
      if key \<in> set recognized_keys then
        let cleaned' = str_strip (str_replace cleaned (key @ '': '' @ val) []) in
        if key \<in> set numeric_keys then
          (case py_int val of
             None \<Rightarrow> process_matches ms (cleaned', overrides)
           | Some n \<Rightarrow> process_matches ms (cleaned', overrides(key \<mapsto> PInt n)))
        else process_matches ms (cleaned', overrides(key \<mapsto> PStr val))
      else process_matches ms (cleaned, overrides))"

definition parse_prompt_overrides :: "string \<Rightarrow> string \<times> (string \<rightharpoonup> pyval)" where
  "parse_prompt_overrides p = process_matches (findall p) (p, Map.empty)"

section \<open>Image markdown\<close>

text \<open>
  \<^verbatim>\<open>_process_base64_image\<close>: the body of its \<^verbatim>\<open>try\<close> is a logging call and two string
  formattings, written here as a computation that may raise; the handler turns an exception
  into the error text.
\<close>

definition base64_data_url :: "string \<Rightarrow> exn + string" where
  "base64_data_url image_data = Inr (''![image]('' @ (''data:image/png;base64,'' @ image_data) @ '')'')"

definition process_base64_image :: "string \<Rightarrow> string" where
  "process_base64_image image_data =
     (case base64_data_url image_data of
        Inr markdown \<Rightarrow> markdown
      | Inl e \<Rightarrow> ''Error processing image: '' @ str_exn e)"

text \<open>The branch of lines 118 to 121.\<close>

definition image_markdown :: "string \<Rightarrow> string" where
  "image_markdown image_data =
     (if prefix ''http'' image_data then ''![image]('' @ image_data @ '')''
      else process_base64_image image_data)"

section \<open>Configuration, request and response\<close>

record valves =
  VENICE_API_BASE_URL :: string
  VENICE_API_KEY :: string
  IMAGE_WIDTH :: int
  IMAGE_HEIGHT :: int
  HIDE_WATERMARK :: bool
  RETURN_BINARY :: bool
  SEED :: "int option"
  MODEL_ID :: string
  CFG_SCALE :: int
  STEPS :: int
  STYLE_PRESET :: string
  NEGATIVE_PROMPT :: string
  TIMEOUT :: int

text \<open>The defaults of the class \<^verbatim>\<open>Valves\<close>.\<close>

definition default_valves :: valves where
  "default_valves =
     \<lparr>VENICE_API_BASE_URL = ''https://api.venice.ai/api/v1'', VENICE_API_KEY = [],
      IMAGE_WIDTH = 720, IMAGE_HEIGHT = 1080, HIDE_WATERMARK = True, RETURN_BINARY = False,
      SEED = Some 123, MODEL_ID = ''fluently-xl'', CFG_SCALE = 7, STEPS = 80,
      STYLE_PRESET = ''Photographic'', NEGATIVE_PROMPT = [], TIMEOUT = 10\<rparr>"

text \<open>\<^verbatim>\<open>overrides.get(key, default)\<close>\<close>

definition get_or :: "(string \<rightharpoonup> pyval) \<Rightarrow> string \<Rightarrow> pyval \<Rightarrow> pyval" where
  "get_or overrides key dflt = (case overrides key of None \<Rightarrow> dflt | Some v \<Rightarrow> v)"

text \<open>
  The dict literal of lines 89 to 104, in the order it is written. \<open>rnd\<close> is the number
  that \<^verbatim>\<open>random.randint(0, 999999)\<close> returns in this invocation.
\<close>

definition build_payload ::
  "valves \<Rightarrow> string \<Rightarrow> (string \<rightharpoonup> pyval) \<Rightarrow> int \<Rightarrow> (string \<times> pyval) list" where
  "build_payload v cleaned overrides rnd =
     [(''model'', PStr (MODEL_ID v)),
      (''prompt'', PStr cleaned),
      (''width'', get_or overrides ''width'' (PInt (IMAGE_WIDTH v))),
      (''height'', get_or overrides ''height'' (PInt (IMAGE_HEIGHT v))),
      (''steps'', get_or overrides ''steps'' (PInt (STEPS v))),
      (''hide_watermark'', PBool (HIDE_WATERMARK v)),
      (''return_binary'', PBool (RETURN_BINARY v)),
      (''cfg_scale'', get_or overrides ''cfg_scale'' (PInt (CFG_SCALE v))),
      (''seed'', get_or overrides ''seed'' (PInt rnd)),
      (''negative_prompt'', get_or overrides ''negative_prompt'' (PStr (NEGATIVE_PROMPT v))),
      (''style_preset'', PStr (STYLE_PRESET v))]"

record request =
  req_url :: string
  req_headers :: "(string \<times> string) list"
  req_json :: "(string \<times> pyval) list"
  req_timeout :: int

definition build_request :: "valves \<Rightarrow> (string \<times> pyval) list \<Rightarrow> request" where
  "build_request v payload =
     \<lparr>req_url = VENICE_API_BASE_URL v @ ''/image/generate'',
      req_headers = [(''Authorization'', ''Bearer '' @ VENICE_API_KEY v),
                     (''Content-Type'', ''application/json'')],
      req_json = payload,
      req_timeout = TIMEOUT v\<rparr>"

text \<open>
  What \<^verbatim>\<open>requests.post\<close> hands back when it does not raise: the status line, the final
  URL, and what \<^verbatim>\<open>response.json()\<close> returns or raises.
\<close>

record response =
  status_code :: nat
  reason :: string
  resp_url :: string
  json_result :: "exn + pyval"

function str_of_nat :: "nat \<Rightarrow> string" where
  "str_of_nat n =
     (if n < 10 then [char_of (48 + n)] else str_of_nat (n div 10) @ [char_of (48 + n mod 10)])"
  by pat_completeness auto
termination
  by (relation "measure id") auto

declare str_of_nat.simps [simp del]

text \<open>\<^verbatim>\<open>response.raise_for_status()\<close> of the requests library.\<close>

definition raise_for_status :: "response \<Rightarrow> exn option" where
  "raise_for_status r =
     (if 400 \<le> status_code r \<and> status_code r < 500 then
        Some (Raised HTTPError
          (str_of_nat (status_code r) @ '' Client Error: '' @ reason r @ '' for url: '' @ resp_url r))
      else if 500 \<le> status_code r \<and> status_code r < 600 then
        Some (Raised HTTPError
          (str_of_nat (status_code r) @ '' Server Error: '' @ reason r @ '' for url: '' @ resp_url r))
      else None)"

section \<open>The action\<close>

text \<open>\<^verbatim>\<open>x[-1]\<close>\<close>

fun last_item :: "pyval \<Rightarrow> exn + pyval" where
  "last_item (PList xs) =
     (if xs = [] then Inl (Raised IndexError ''list index out of range'') else Inr (last xs))"
| "last_item (PStr s) =
     (if s = [] then Inl (Raised IndexError ''string index out of range'') else Inr (PStr [last s]))"
| "last_item (PDict d) = Inl (Raised KeyError ''-1'')"
| "last_item x = Inl (Raised TypeError (quoted (type_name x) @ '' object is not subscriptable''))"

text \<open>\<^verbatim>\<open>x.get("content", "")\<close>\<close>

fun get_content :: "pyval \<Rightarrow> exn + pyval" where
  "get_content (PDict d) = Inr (case map_of d ''content'' of None \<Rightarrow> PStr [] | Some c \<Rightarrow> c)"
| "get_content x =
     Inl (Raised AttributeError (quoted (type_name x) @ '' object has no attribute '' @ quoted ''get''))"

text \<open>Line 83: \<^verbatim>\<open>body.get("messages", [{}])[-1].get("content", "")\<close>\<close>

definition get_prompt :: "(string \<times> pyval) list \<Rightarrow> exn + pyval" where
  "get_prompt body =
     (case last_item (case map_of body ''messages'' of None \<Rightarrow> PList [PDict []] | Some m \<Rightarrow> m) of
        Inl e \<Rightarrow> Inl e
      | Inr message \<Rightarrow> get_content message)"

text \<open>
  The call of line 85. \<^verbatim>\<open>re.findall\<close> raises \<^verbatim>\<open>TypeError\<close> when the prompt is not a
  string.
\<close>

fun call_parser :: "pyval \<Rightarrow> exn + string \<times> (string \<rightharpoonup> pyval)" where
  "call_parser (PStr p) = Inr (parse_prompt_overrides p)"
| "call_parser x =
     Inl (Raised TypeError (''expected string or bytes-like object, got '' @ quoted (type_name x)))"

text \<open>
  Lines 116 and 117: the objects the loop runs over. The condition
  \<^verbatim>\<open>"images" in data and data["images"]\<close> is evaluated on whatever the JSON holds; when
  it is false the loop is skipped, which is the empty list here.
\<close>

fun iterate :: "pyval \<Rightarrow> exn + pyval list" where
  "iterate (PList xs) = Inr xs"
| "iterate (PStr s) = Inr (map (\<lambda>c. PStr [c]) s)"
| "iterate (PDict d) = Inr (map (\<lambda>kv. PStr (fst kv)) d)"
| "iterate x = Inl (Raised TypeError (quoted (type_name x) @ '' object is not iterable''))"

fun image_entries :: "pyval \<Rightarrow> exn + pyval list" where
  "image_entries (PDict d) =
     (case map_of d ''images'' of
        None \<Rightarrow> Inr []
      | Some imgs \<Rightarrow> if truthy imgs then iterate imgs else Inr [])"
| "image_entries (PList xs) =
     (if PStr ''images'' \<in> set xs
      then Inl (Raised TypeError ''list indices must be integers or slices, not str'')
      else Inr [])"
| "image_entries (PStr s) =
     (if str_contains ''images'' s
      then Inl (Raised TypeError (''string indices must be integers, not '' @ quoted ''str''))
      else Inr [])"
| "image_entries x =
     Inl (Raised TypeError (''argument of type '' @ quoted (type_name x) @ '' is not iterable''))"

text \<open>
  The loop of lines 117 to 128: the messages emitted, and the exception that stopped the
  loop if one did. An entry that is not a string has no \<^verbatim>\<open>startswith\<close>.
\<close>

fun emit_images :: "pyval list \<Rightarrow> notification list \<times> exn option" where
  "emit_images [] = ([], None)"
| "emit_images (PStr image_data # rest) =
     (Message (image_markdown image_data) ''assistant'' # fst (emit_images rest),
      snd (emit_images rest))"
| "emit_images (x # rest) =
     ([], Some (Raised AttributeError
        (quoted (type_name x) @ '' object has no attribute '' @ quoted ''startswith'')))"

text \<open>
  What one invocation does to the outside: the notifications given to the event emitter
  and the requests posted, both in order.
\<close>

record trace =
  emitted :: "notification list"
  posted :: "request list"

text \<open>
  Lines 83 to 114: from the chat body to the decoded JSON of the response, with the requests
  posted on the way. \<open>post\<close> is the remote service as \<^verbatim>\<open>requests.post\<close> sees it; it raises
  (a timeout, a connection error) or returns a response.
\<close>

definition fetch_json ::
  "valves \<Rightarrow> (request \<Rightarrow> exn + response) \<Rightarrow> int \<Rightarrow> (string \<times> pyval) list
     \<Rightarrow> request list \<times> (exn + pyval)" where
  "fetch_json v post rnd body =
     (case get_prompt body of
        Inl e \<Rightarrow> ([], Inl e)
      | Inr p \<Rightarrow>
     (case call_parser p of
        Inl e \<Rightarrow> ([], Inl e)
      | Inr (cleaned, overrides) \<Rightarrow>
     (let req = build_request v (build_payload v cleaned overrides rnd) in
      case post req of
        Inl e \<Rightarrow> ([req], Inl e)
      | Inr resp \<Rightarrow>
     (case raise_for_status resp of
        Some e \<Rightarrow> ([req], Inl e)
      | None \<Rightarrow> ([req], json_result resp)))))"

text \<open>Up to the condition of line 116: the image entries the loop will run over.\<close>

definition fetch_images ::
  "valves \<Rightarrow> (request \<Rightarrow> exn + response) \<Rightarrow> int \<Rightarrow> (string \<times> pyval) list
     \<Rightarrow> request list \<times> (exn + pyval list)" where
  "fetch_images v post rnd body =
     (case fetch_json v post rnd body of
        (reqs, Inl e) \<Rightarrow> (reqs, Inl e)
      | (reqs, Inr data) \<Rightarrow> (reqs, image_entries data))"

text \<open>The \<^verbatim>\<open>try\<close> block: the messages and the final status, or the exception.\<close>

definition try_block ::
  "valves \<Rightarrow> (request \<Rightarrow> exn + response) \<Rightarrow> int \<Rightarrow> (string \<times> pyval) list
     \<Rightarrow> trace \<times> exn option" where
  "try_block v post rnd body =
     (case fetch_images v post rnd body of
        (reqs, Inl e) \<Rightarrow> (\<lparr>emitted = [], posted = reqs\<rparr>, Some e)
      | (reqs, Inr entries) \<Rightarrow>
          (case emit_images entries of
             (msgs, Some e) \<Rightarrow> (\<lparr>emitted = msgs, posted = reqs\<rparr>, Some e)
           | (msgs, None) \<Rightarrow>
               (\<lparr>emitted = msgs @ [Status ''Image generated!'' True], posted = reqs\<rparr>, None)))"

text \<open>
  \<^verbatim>\<open>Action.action\<close>. \<open>has_emitter\<close> says that \<^verbatim>\<open>__event_emitter__\<close> was given; the
  emitter itself only records what it is handed.
\<close>

definition action ::
  "valves \<Rightarrow> (request \<Rightarrow> exn + response) \<Rightarrow> int \<Rightarrow> (string \<times> pyval) list \<Rightarrow> bool \<Rightarrow> trace" where
  "action v post rnd body has_emitter =
     (if \<not> has_emitter \<or> VENICE_API_KEY v = [] then \<lparr>emitted = [], posted = []\<rparr>
      else
        case try_block v post rnd body of
          (t, None) \<Rightarrow> t\<lparr>emitted := Status ''Generating image...'' False # emitted t\<rparr>
        | (t, Some e) \<Rightarrow>
            t\<lparr>emitted := Status ''Generating image...'' False # emitted t
                             @ [Status (''Error: '' @ str_exn e) True]\<rparr>)"

text \<open>The kinds of notification: a message, and a status that reports an error.\<close>

fun is_message :: "notification \<Rightarrow> bool" where
  "is_message (Message c r) = True"
| "is_message (Status d b) = False"

fun is_error_status :: "notification \<Rightarrow> bool" where
  "is_error_status (Status d b) = prefix ''Error: '' d"
| "is_error_status (Message c r) = False"

text \<open>
  What one match adds to \<^verbatim>\<open>overrides\<close> (lines 176 to 194): nothing when the lower-cased
  key is not recognized or when the value of a numeric key does not convert; otherwise the
  lower-cased key with the integer, or with the value as it stands for the two string keys.
\<close>

definition accept :: "string \<times> string \<Rightarrow> (string \<times> pyval) option" where
  "accept m =
     (let key = str_lower (fst m) in
      if key \<in> set recognized_keys then
        if key \<in> set numeric_keys then map_option (\<lambda>n. (key, PInt n)) (py_int (snd m))
        else Some (key, PStr (snd m))
      else None)"

definition accepted_overrides :: "string \<Rightarrow> (string \<times> pyval) list" where
  "accepted_overrides p = List.map_filter accept (findall p)"

text \<open>
  The specification's words for the first branch of the image loop, "an HTTP(S) URL string":
  a string that begins with one of the two schemes. The code tests less, see
  \<open>image_markdown\<close>.
\<close>

definition spec_is_http_url :: "string \<Rightarrow> bool" where
  "spec_is_http_url s \<longleftrightarrow> prefix ''http://'' s \<or> prefix ''https://'' s"

section \<open>Properties of the override parser\<close>

lemmas parser_eval = match_at_def isword_def isspace_def code_point_def newline_def
  parse_prompt_overrides_def str_lower_def lower_char_def recognized_keys_def numeric_keys_def
  str_strip_def py_int_def int_space_def isdecimal_def digit_value_def decimal_value_def
  int_max_str_digits_def

lemma numeric_recognized: "k \<in> set numeric_keys \<Longrightarrow> k \<in> set recognized_keys"
  by (auto simp: numeric_keys_def recognized_keys_def)

text \<open>One round of the loop changes the overrides by what \<open>accept\<close> says, whatever the prompt is.\<close>

lemma process_matches_Cons:
  "\<exists>c'. process_matches (m # ms) (c, ov)
     = process_matches ms (c', case accept m of None \<Rightarrow> ov | Some kx \<Rightarrow> ov(fst kx \<mapsto> snd kx))"
proof (cases m)
  case (Pair k val)
  then show ?thesis
    by (cases "py_int val") (auto simp: accept_def Let_def)
qed

lemma upd_add_map_of:
  "ov(k \<mapsto> x) ++ map_of (rev xs) = ov ++ map_of (rev ((k, x) # xs))"
  by (rule ext) (simp add: map_add_def split: option.splits)

lemma process_matches_overrides:
  "snd (process_matches ms (c, ov)) = ov ++ map_of (rev (List.map_filter accept ms))"
proof (induction ms arbitrary: c ov)
  case Nil
  then show ?case by (simp add: List.map_filter_simps)
next
  case (Cons m ms)
  obtain c' where step: "process_matches (m # ms) (c, ov)
     = process_matches ms (c', case accept m of None \<Rightarrow> ov | Some kx \<Rightarrow> ov(fst kx \<mapsto> snd kx))"
    using process_matches_Cons by blast
  show ?case
  proof (cases "accept m")
    case None
    then show ?thesis
      unfolding step by (simp add: Cons.IH List.map_filter_simps)
  next
    case (Some kx)
    have "snd (process_matches (m # ms) (c, ov))
        = ov(fst kx \<mapsto> snd kx) ++ map_of (rev (List.map_filter accept ms))"
      unfolding step by (simp add: Some Cons.IH fun_upd_def)
    also have "\<dots> = ov ++ map_of (rev ((fst kx, snd kx) # List.map_filter accept ms))"
      by (rule upd_add_map_of)
    also have "(fst kx, snd kx) # List.map_filter accept ms = List.map_filter accept (m # ms)"
      by (simp add: Some List.map_filter_simps)
    finally show ?thesis .
  qed
qed

lemma parse_overrides_eq:
  "snd (parse_prompt_overrides p) = map_of (rev (accepted_overrides p))"
  by (simp add: parse_prompt_overrides_def accepted_overrides_def process_matches_overrides)

lemma accept_numeric:
  assumes "accept m = Some (k, x)" and "k \<in> set numeric_keys"
  shows "\<exists>n. x = PInt n"
  using assms by (auto simp: accept_def Let_def split: if_splits)

lemma map_of_rev_last:
  assumes "k \<notin> fst ` set ys"
  shows "map_of (rev (xs @ (k, x) # ys)) k = Some x"
proof -
  have "map_of (rev ys) k = None"
    using assms by (simp add: map_of_eq_None_iff)
  then show ?thesis by (simp add: map_add_def)
qed

subsection \<open>Numeric keys\<close>

text \<open>
  C5: in the mapping the parser returns, a value under one of the numeric keys \<open>width\<close>,
  \<open>height\<close>, \<open>steps\<close>, \<open>seed\<close>, \<open>cfg_scale\<close> is an integer; and a match whose lower-cased
  key is numeric and whose value fails the integer conversion adds nothing: the mapping is
  the one the other matches give, and the loop goes on with them.
\<close>

theorem numeric_overrides_are_integers:
  "(k \<in> set numeric_keys \<and> snd (parse_prompt_overrides p) k = Some x \<longrightarrow> (\<exists>n. x = PInt n))
   \<and> (findall p = ms1 @ (key, val) # ms2 \<and> str_lower key \<in> set numeric_keys \<and> py_int val = None
        \<longrightarrow> snd (parse_prompt_overrides p) = snd (process_matches (ms1 @ ms2) (p, Map.empty)))"
proof (intro conjI impI)
  assume a: "k \<in> set numeric_keys \<and> snd (parse_prompt_overrides p) k = Some x"
  then have "(k, x) \<in> set (accepted_overrides p)"
    by (metis parse_overrides_eq map_of_SomeD set_rev)
  then obtain m where "accept m = Some (k, x)"
    by (auto simp: accepted_overrides_def List.map_filter_def)
  with a show "\<exists>n. x = PInt n" using accept_numeric by blast
next
  assume b: "findall p = ms1 @ (key, val) # ms2 \<and> str_lower key \<in> set numeric_keys \<and> py_int val = None"
  then have "accept (key, val) = None"
    by (simp add: accept_def Let_def numeric_recognized)
  then have "List.map_filter accept (ms1 @ (key, val) # ms2) = List.map_filter accept (ms1 @ ms2)"
    by (simp add: List.map_filter_def)
  with b show "snd (parse_prompt_overrides p) = snd (process_matches (ms1 @ ms2) (p, Map.empty))"
    by (simp add: parse_prompt_overrides_def process_matches_overrides)
qed

lemma findall_seed_abc: "findall ''seed: abc'' = [(''seed'', ''abc'')]"
  by (simp add: parser_eval)

theorem numeric_overrides_are_integers_witness:
  "snd (parse_prompt_overrides ''seed: abc'') = Map.empty
   \<and> (\<exists>n. snd (parse_prompt_overrides ''seed: 42'') ''seed'' = Some (PInt n))"
proof -
  have a: "snd (parse_prompt_overrides ''seed: 42'') ''seed'' = Some (PInt 42)"
    by (simp add: parser_eval)
  have b: "''seed'' \<in> set numeric_keys" by (simp add: numeric_keys_def)
  have c: "py_int ''abc'' = None" by (simp add: parser_eval)
  have d: "str_lower ''seed'' \<in> set numeric_keys" by (simp add: parser_eval)
  from numeric_overrides_are_integers [of "''seed''" "''seed: 42''" "PInt 42" "[]" "''seed''" "''abc''" "[]"]
    numeric_overrides_are_integers [of "''seed''" "''seed: abc''" "PInt 42" "[]" "''seed''" "''abc''" "[]"]
    a b c d findall_seed_abc
  show ?thesis by simp
qed

subsection \<open>Repeated keys\<close>

text \<open>
  C8, as amended: under each key the mapping holds the value of the last match of that key
  that was accepted, and nothing when no match of that key was accepted. A match is accepted
  when its lower-cased key is recognized and, for a numeric key, its value converts to an
  integer; so a later occurrence whose value does not convert leaves the earlier value.
\<close>

theorem last_accepted_override_wins:
  "(accepted_overrides p = xs @ (k, x) # ys \<and> k \<notin> fst ` set ys
      \<longrightarrow> snd (parse_prompt_overrides p) k = Some x)
   \<and> (k \<notin> fst ` set (accepted_overrides p) \<longrightarrow> snd (parse_prompt_overrides p) k = None)"
proof (intro conjI impI)
  assume "accepted_overrides p = xs @ (k, x) # ys \<and> k \<notin> fst ` set ys"
  then show "snd (parse_prompt_overrides p) k = Some x"
    unfolding parse_overrides_eq using map_of_rev_last [of k ys xs x] by simp
next
  assume "k \<notin> fst ` set (accepted_overrides p)"
  then show "snd (parse_prompt_overrides p) k = None"
    unfolding parse_overrides_eq by (simp add: map_of_eq_None_iff)
qed

lemma findall_steps_10_20:
  "findall ''steps: 10\<newline>steps: 20'' = [(''steps'', ''10''), (''steps'', ''20'')]"
  by (simp add: parser_eval)

lemma accepted_steps_10_20:
  "accepted_overrides ''steps: 10\<newline>steps: 20''
     = [(''steps'', PInt 10), (''steps'', PInt 20)]"
  by (simp add: accepted_overrides_def findall_steps_10_20 accept_def parser_eval)

text \<open>The example of the claim: \<open>steps: 10\<close> on one line and \<open>steps: 20\<close> on the next.\<close>

theorem last_accepted_override_wins_witness:
  "snd (parse_prompt_overrides ''steps: 10\<newline>steps: 20'') ''steps'' = Some (PInt 20)
   \<and> snd (parse_prompt_overrides ''steps: 10\<newline>steps: 20'') ''width'' = None"
  using last_accepted_override_wins [of "''steps: 10\<newline>steps: 20''"
      "[(''steps'', PInt 10)]" "''steps''" "PInt 20" "[]"]
    last_accepted_override_wins [of "''steps: 10\<newline>steps: 20''"
      "[(''steps'', PInt 10)]" "''width''" "PInt 20" "[]"]
  by (simp add: accepted_steps_10_20)

text \<open>
  The claim as it was stated fails: \<open>steps\<close> is matched twice, the value of the last
  occurrence is \<open>abc\<close>, and the mapping holds 10.
\<close>

theorem last_occurrence_counterexample:
  "findall ''steps: 10\<newline>steps: abc'' = [(''steps'', ''10''), (''steps'', ''abc'')]
   \<and> snd (parse_prompt_overrides ''steps: 10\<newline>steps: abc'') ''steps'' = Some (PInt 10)"
  by (simp add: parser_eval)

subsection \<open>Overrides on one line\<close>

text \<open>
  C2, as amended: in \<open>a cat, width: 512, height: 768\<close> the pattern matches once, with key
  \<open>width\<close> and the rest of the line as value; that value is not an integer, so the mapping
  returned is empty. The cleaned prompt is \<open>a cat,\<close> and \<open>width: 512\<close> does not occur in it.
  With each override on a line of its own the mapping is \<open>width\<close> 512, \<open>height\<close> 768 and the
  cleaned prompt is \<open>a cat\<close>.
\<close>

theorem comma_separated_overrides:
  "parse_prompt_overrides ''a cat, width: 512, height: 768'' = (''a cat,'', Map.empty)
   \<and> findall ''a cat, width: 512, height: 768'' = [(''width'', ''512, height: 768'')]
   \<and> py_int ''512, height: 768'' = None
   \<and> \<not> str_contains ''width: 512'' (fst (parse_prompt_overrides ''a cat, width: 512, height: 768''))
   \<and> parse_prompt_overrides ''a cat\<newline>width: 512\<newline>height: 768''
       = (''a cat'', [''width'' \<mapsto> PInt 512, ''height'' \<mapsto> PInt 768])"
  by (simp add: parser_eval)

theorem comma_separated_overrides_counterexample:
  "snd (parse_prompt_overrides ''a cat, width: 512, height: 768'')
     \<noteq> [''width'' \<mapsto> PInt 512, ''height'' \<mapsto> PInt 768]"
proof
  assume "snd (parse_prompt_overrides ''a cat, width: 512, height: 768'')
     = [''width'' \<mapsto> PInt 512, ''height'' \<mapsto> PInt 768]"
  then have "snd (parse_prompt_overrides ''a cat, width: 512, height: 768'') ''width''
     = [''width'' \<mapsto> PInt 512, ''height'' \<mapsto> PInt 768] ''width''"
    by simp
  then show False by (simp add: parser_eval)
qed

subsection \<open>Removal from the prompt\<close>

text \<open>
  C7, on the prompt \<open>Steps: 5\<close>: the pattern matches the whole prompt, the key lower-cases to
  the recognized \<open>steps\<close> and the override is stored, but the text looked for in the prompt is
  built from the lower-cased key, does not occur, and the matched text stays in the cleaned
  prompt. Written \<open>steps: 5\<close> it is removed.
\<close>

theorem uppercase_key_left_in_prompt:
  "findall ''Steps: 5'' = [(''Steps'', ''5'')]
   \<and> str_lower ''Steps'' \<in> set recognized_keys
   \<and> snd (parse_prompt_overrides ''Steps: 5'') ''steps'' = Some (PInt 5)
   \<and> fst (parse_prompt_overrides ''Steps: 5'') = ''Steps: 5''
   \<and> fst (parse_prompt_overrides ''steps: 5'') = []"
  by code_simp

section \<open>Properties of the action\<close>

subsection \<open>Missing preconditions\<close>

text \<open>
  C4: when the event emitter is absent or the configured API key is the empty string, the
  action returns at once: nothing is emitted and no request is posted, whatever the chat
  body, the service and the random draw are.
\<close>

theorem action_noop_without_emitter_or_key:
  "\<not> has_emitter \<or> VENICE_API_KEY v = [] \<Longrightarrow>
     action v post rnd body has_emitter = \<lparr>emitted = [], posted = []\<rparr>"
  by (simp add: action_def)

theorem action_noop_without_emitter_or_key_witness:
  "action default_valves (\<lambda>r. Inl (Raised Timeout ''timed out'')) 7
     [(''messages'', PList [PDict [(''content'', PStr ''a cat'')]])] True
     = \<lparr>emitted = [], posted = []\<rparr>
   \<and> action (default_valves\<lparr>VENICE_API_KEY := ''secret''\<rparr>)
       (\<lambda>r. Inl (Raised Timeout ''timed out'')) 7
       [(''messages'', PList [PDict [(''content'', PStr ''a cat'')]])] False
     = \<lparr>emitted = [], posted = []\<rparr>"
  using action_noop_without_emitter_or_key [of True default_valves
      "\<lambda>r. Inl (Raised Timeout ''timed out'')" 7
      "[(''messages'', PList [PDict [(''content'', PStr ''a cat'')]])]"]
    action_noop_without_emitter_or_key [of False "default_valves\<lparr>VENICE_API_KEY := ''secret''\<rparr>"
      "\<lambda>r. Inl (Raised Timeout ''timed out'')" 7
      "[(''messages'', PList [PDict [(''content'', PStr ''a cat'')]])]"]
  by (simp add: default_valves_def)

subsection \<open>Exceptions\<close>

lemma emit_images_messages: "list_all is_message (fst (emit_images xs))"
  by (induction xs rule: emit_images.induct) simp_all

lemma emit_images_no_error_status: "filter is_error_status (fst (emit_images xs)) = []"
  by (induction xs rule: emit_images.induct) simp_all

lemma try_block_error_emitted:
  assumes "try_block v post rnd body = (t, Some e)"
  shows "list_all is_message (emitted t)"
    and "filter is_error_status (emitted t) = []"
    and "isl (snd (fetch_images v post rnd body)) \<Longrightarrow> emitted t = []"
proof -
  obtain reqs r where f: "fetch_images v post rnd body = (reqs, r)"
    by (cases "fetch_images v post rnd body")
  show "list_all is_message (emitted t)"
  proof (cases r)
    case (Inl e')
    with f assms show ?thesis by (auto simp: try_block_def)
  next
    case (Inr entries)
    obtain msgs err where m: "emit_images entries = (msgs, err)"
      by (cases "emit_images entries")
    with emit_images_messages [of entries] have "list_all is_message msgs" by simp
    with assms f Inr m show ?thesis
      by (cases err) (auto simp: try_block_def)
  qed
  show "filter is_error_status (emitted t) = []"
  proof (cases r)
    case (Inl e')
    with f assms show ?thesis by (auto simp: try_block_def)
  next
    case (Inr entries)
    obtain msgs err where m: "emit_images entries = (msgs, err)"
      by (cases "emit_images entries")
    with emit_images_no_error_status [of entries] have "filter is_error_status msgs = []" by simp
    with assms f Inr m show ?thesis
      by (cases err) (auto simp: try_block_def)
  qed
  show "emitted t = []" if "isl (snd (fetch_images v post rnd body))"
    using that f assms by (cases r) (auto simp: try_block_def)
qed

text \<open>
  C3: when the emitter and the key are there and the \<^verbatim>\<open>try\<close> block raises \<open>e\<close>, the
  notifications are the first status, then only messages, then one status with the text
  \<open>Error: \<close> followed by \<^verbatim>\<open>str(e)\<close> and done set. That status is the only error status and
  the last notification. When the exception comes before the loop over the images (a timeout,
  an HTTP error status, a response that is not JSON), there is no message at all.
\<close>

theorem action_exception_one_error_status:
  assumes "has_emitter" and "VENICE_API_KEY v \<noteq> []"
    and "snd (try_block v post rnd body) = Some e"
  shows "\<exists>msgs. emitted (action v post rnd body has_emitter)
            = Status ''Generating image...'' False # msgs @ [Status (''Error: '' @ str_exn e) True]
          \<and> list_all is_message msgs
          \<and> (isl (snd (fetch_images v post rnd body)) \<longrightarrow> msgs = [])
          \<and> filter is_error_status (emitted (action v post rnd body has_emitter))
              = [Status (''Error: '' @ str_exn e) True]"
proof -
  obtain t where tb: "try_block v post rnd body = (t, Some e)"
    using assms(3) by (cases "try_block v post rnd body") simp
  have em: "emitted (action v post rnd body has_emitter)
      = Status ''Generating image...'' False # emitted t @ [Status (''Error: '' @ str_exn e) True]"
    using assms(1,2) by (simp add: action_def tb)
  have one: "filter is_error_status (emitted (action v post rnd body has_emitter))
      = [Status (''Error: '' @ str_exn e) True]"
    unfolding em using try_block_error_emitted(2) [OF tb] by simp
  show ?thesis
  proof (intro exI [of _ "emitted t"] conjI impI)
    show "emitted (action v post rnd body has_emitter)
      = Status ''Generating image...'' False # emitted t @ [Status (''Error: '' @ str_exn e) True]"
      by (rule em)
    show "list_all is_message (emitted t)"
      by (rule try_block_error_emitted(1) [OF tb])
    show "emitted t = []" if "isl (snd (fetch_images v post rnd body))"
      using that by (rule try_block_error_emitted(3) [OF tb])
    show "filter is_error_status (emitted (action v post rnd body has_emitter))
      = [Status (''Error: '' @ str_exn e) True]"
      by (rule one)
  qed
qed

lemma str_of_nat_404: "str_of_nat 404 = ''404''"
  by code_simp

text \<open>A request that times out, and a response with the status 404.\<close>

theorem action_timeout_witness:
  "emitted (action (default_valves\<lparr>VENICE_API_KEY := ''secret''\<rparr>)
      (\<lambda>r. Inl (Raised Timeout ''timed out'')) 7
      [(''messages'', PList [PDict [(''content'', PStr ''a cat'')]])] True)
     = [Status ''Generating image...'' False, Status ''Error: timed out'' True]
   \<and> emitted (action (default_valves\<lparr>VENICE_API_KEY := ''secret''\<rparr>)
      (\<lambda>r. Inr \<lparr>status_code = 404, reason = ''Not Found'', resp_url = ''u'',
                 json_result = Inr (PDict [])\<rparr>) 7
      [(''messages'', PList [PDict [(''content'', PStr ''a cat'')]])] True)
     = [Status ''Generating image...'' False,
        Status ''Error: 404 Client Error: Not Found for url: u'' True]"
proof -
  let ?v = "default_valves\<lparr>VENICE_API_KEY := ''secret''\<rparr>"
  let ?post = "\<lambda>r :: request. (Inl (Raised Timeout ''timed out'') :: exn + response)"
  let ?post' = "\<lambda>r :: request. (Inr \<lparr>status_code = 404, reason = ''Not Found'', resp_url = ''u'',
                 json_result = Inr (PDict [])\<rparr> :: exn + response)"
  let ?body = "[(''messages'', PList [PDict [(''content'', PStr ''a cat'')]])]"
  let ?e' = "Raised HTTPError ''404 Client Error: Not Found for url: u''"
  have p: "parse_prompt_overrides ''a cat'' = (''a cat'', Map.empty)"
    by (simp add: parse_prompt_overrides_def match_at_def isword_def isspace_def code_point_def)
  have k: "VENICE_API_KEY ?v \<noteq> []" by simp
  have f: "snd (fetch_images ?v ?post 7 ?body) = Inl (Raised Timeout ''timed out'')"
    by (simp add: fetch_images_def fetch_json_def get_prompt_def p)
  have t: "snd (try_block ?v ?post 7 ?body) = Some (Raised Timeout ''timed out'')"
    using f by (cases "fetch_images ?v ?post 7 ?body") (simp add: try_block_def)
  have f': "snd (fetch_images ?v ?post' 7 ?body) = Inl ?e'"
    by (simp add: fetch_images_def fetch_json_def get_prompt_def p raise_for_status_def
        str_of_nat_404)
  have t': "snd (try_block ?v ?post' 7 ?body) = Some ?e'"
    using f' by (cases "fetch_images ?v ?post' 7 ?body") (simp add: try_block_def)
  from action_exception_one_error_status [OF TrueI k t] f
    action_exception_one_error_status [OF TrueI k t'] f'
  show ?thesis by auto
qed

subsection \<open>The request payload\<close>

text \<open>
  C1, on the prompt \<open>a cat\<close> followed by the line \<open>style_preset: Anime\<close>, with the default
  configuration and an API key: the parser stores the override and takes it out of the prompt,
  but the payload posted carries the configured style preset. The configured seed, 123, is
  not used either: without a seed override the payload carries the random draw, here 42.
\<close>

theorem style_preset_override_ignored:
  "snd (parse_prompt_overrides ''a cat\<newline>style_preset: Anime'') ''style_preset''
     = Some (PStr ''Anime'')
   \<and> fst (parse_prompt_overrides ''a cat\<newline>style_preset: Anime'') = ''a cat''
   \<and> map (\<lambda>r. map_of (req_json r) ''style_preset'')
       (fst (fetch_json (default_valves\<lparr>VENICE_API_KEY := ''secret''\<rparr>)
          (\<lambda>r. Inl (Raised Timeout ''timed out'')) 42
          [(''messages'', PList [PDict [(''content'',
              PStr ''a cat\<newline>style_preset: Anime'')]])]))
     = [Some (PStr ''Photographic'')]
   \<and> SEED default_valves = Some 123
   \<and> map (\<lambda>r. map_of (req_json r) ''seed'')
       (fst (fetch_json (default_valves\<lparr>VENICE_API_KEY := ''secret''\<rparr>)
          (\<lambda>r. Inl (Raised Timeout ''timed out'')) 42
          [(''messages'', PList [PDict [(''content'',
              PStr ''a cat\<newline>style_preset: Anime'')]])]))
     = [Some (PInt 42)]"
proof -
  have p: "parse_prompt_overrides ''a cat\<newline>style_preset: Anime''
      = (''a cat'', [''style_preset'' \<mapsto> PStr ''Anime''])"
    by (simp add: parser_eval)
  show ?thesis
    using p by (simp add: newline_def fetch_json_def get_prompt_def build_request_def build_payload_def
        get_or_def default_valves_def)
qed

subsection \<open>The prompt of the chat body\<close>

text \<open>
  C9, on the body whose \<open>messages\<close> is the empty list: indexing the last message raises
  \<^verbatim>\<open>IndexError\<close>, so the \<^verbatim>\<open>try\<close> block ends with that exception before anything is
  posted. A body without \<open>messages\<close>, and a last message without \<open>content\<close>, give the
  empty prompt.
\<close>

theorem empty_messages_list_raises:
  "get_prompt [(''messages'', PList [])] = Inl (Raised IndexError ''list index out of range'')
   \<and> try_block v post rnd [(''messages'', PList [])]
       = (\<lparr>emitted = [], posted = []\<rparr>, Some (Raised IndexError ''list index out of range''))
   \<and> get_prompt [] = Inr (PStr [])
   \<and> get_prompt [(''messages'', PList [PDict [(''role'', PStr ''user'')]])] = Inr (PStr [])"
  by (simp add: get_prompt_def try_block_def fetch_images_def fetch_json_def)

subsection \<open>Images of a successful response\<close>

lemma emit_images_strings:
  "emit_images (map PStr ss) = (map (\<lambda>s. Message (image_markdown s) ''assistant'') ss, None)"
  by (induction ss) simp_all

lemma image_markdown_eq:
  "image_markdown s =
     (if prefix ''http'' s then ''![image]('' @ s @ '')''
      else ''![image](data:image/png;base64,'' @ s @ '')'')"
  by (simp add: image_markdown_def process_base64_image_def base64_data_url_def)

lemma try_block_of_json:
  assumes "fetch_json v post rnd body = (reqs, Inr data)"
    and "image_entries data = Inr (map PStr ss)"
  shows "try_block v post rnd body
     = (\<lparr>emitted = map (\<lambda>s. Message (image_markdown s) ''assistant'') ss
                     @ [Status ''Image generated!'' True],
         posted = reqs\<rparr>, None)"
  using assms by (simp add: try_block_def fetch_images_def emit_images_strings)

lemma try_block_done_last:
  assumes "try_block v post rnd body = (t, None)"
  shows "emitted t \<noteq> [] \<and> last (emitted t) = Status ''Image generated!'' True"
  using assms
  by (auto simp: try_block_def split: prod.splits sum.splits option.splits)

lemma parse_a_cat: "parse_prompt_overrides ''a cat'' = (''a cat'', Map.empty)"
  by (simp add: parse_prompt_overrides_def match_at_def isword_def isspace_def code_point_def)

lemma fetch_json_ok:
  "snd (fetch_json (default_valves\<lparr>VENICE_API_KEY := ''secret''\<rparr>)
      (\<lambda>r. Inr \<lparr>status_code = 200, reason = ''OK'', resp_url = req_url r, json_result = Inr data\<rparr>)
      rnd [(''messages'', PList [PDict [(''content'', PStr ''a cat'')]])]) = Inr data"
  by (simp add: fetch_json_def get_prompt_def parse_a_cat raise_for_status_def)

text \<open>
  C6, as amended: with the emitter and the key there, a run that raises nothing ends with the
  done status. When the response decodes to a JSON object without \<open>images\<close>, or with the
  empty list, no message is emitted. When \<open>images\<close> is a list of strings, each entry gives
  one message with the assistant role, in the order of the list: the entry in parentheses
  after \<open>![image]\<close> when it starts with the four characters \<open>http\<close>, the data URL otherwise.
\<close>

theorem images_become_messages:
  assumes "has_emitter" and "VENICE_API_KEY v \<noteq> []"
  shows "(snd (try_block v post rnd body) = None
            \<longrightarrow> last (emitted (action v post rnd body has_emitter)) = Status ''Image generated!'' True)
       \<and> (snd (fetch_json v post rnd body) = Inr (PDict d) \<and> map_of d ''images'' = None
            \<longrightarrow> emitted (action v post rnd body has_emitter)
                = [Status ''Generating image...'' False, Status ''Image generated!'' True])
       \<and> (snd (fetch_json v post rnd body) = Inr (PDict d)
             \<and> map_of d ''images'' = Some (PList (map PStr ss))
            \<longrightarrow> emitted (action v post rnd body has_emitter)
                = Status ''Generating image...'' False
                  # map (\<lambda>s. Message (if prefix ''http'' s then ''![image]('' @ s @ '')''
                                        else ''![image](data:image/png;base64,'' @ s @ '')'')
                                       ''assistant'') ss
                  @ [Status ''Image generated!'' True])"
proof (intro conjI impI)
  assume "snd (try_block v post rnd body) = None"
  then obtain t where t: "try_block v post rnd body = (t, None)"
    by (cases "try_block v post rnd body") simp
  from try_block_done_last [OF t] assms t
  show "last (emitted (action v post rnd body has_emitter)) = Status ''Image generated!'' True"
    by (simp add: action_def)
next
  assume a: "snd (fetch_json v post rnd body) = Inr (PDict d) \<and> map_of d ''images'' = None"
  then obtain reqs where f: "fetch_json v post rnd body = (reqs, Inr (PDict d))"
    by (cases "fetch_json v post rnd body") simp
  from a have "image_entries (PDict d) = Inr (map PStr [])" by simp
  from try_block_of_json [OF f this] assms
  show "emitted (action v post rnd body has_emitter)
      = [Status ''Generating image...'' False, Status ''Image generated!'' True]"
    by (simp add: action_def)
next
  assume a: "snd (fetch_json v post rnd body) = Inr (PDict d)
     \<and> map_of d ''images'' = Some (PList (map PStr ss))"
  then obtain reqs where f: "fetch_json v post rnd body = (reqs, Inr (PDict d))"
    by (cases "fetch_json v post rnd body") simp
  from a have "image_entries (PDict d) = Inr (map PStr ss)" by simp
  from try_block_of_json [OF f this] assms
  show "emitted (action v post rnd body has_emitter)
      = Status ''Generating image...'' False
        # map (\<lambda>s. Message (if prefix ''http'' s then ''![image]('' @ s @ '')''
                              else ''![image](data:image/png;base64,'' @ s @ '')'')
                             ''assistant'') ss
        @ [Status ''Image generated!'' True]"
    by (simp add: action_def image_markdown_eq)
qed

text \<open>The example of the claim: the response with the one image \<open>http://x/y.png\<close>.\<close>

theorem images_become_messages_witness:
  "emitted (action (default_valves\<lparr>VENICE_API_KEY := ''secret''\<rparr>)
      (\<lambda>r. Inr \<lparr>status_code = 200, reason = ''OK'', resp_url = req_url r,
                 json_result = Inr (PDict [(''images'', PList [PStr ''http://x/y.png''])])\<rparr>)
      7 [(''messages'', PList [PDict [(''content'', PStr ''a cat'')]])] True)
     = [Status ''Generating image...'' False,
        Message ''![image](http://x/y.png)'' ''assistant'',
        Status ''Image generated!'' True]"
proof -
  have k: "VENICE_API_KEY (default_valves\<lparr>VENICE_API_KEY := ''secret''\<rparr>) \<noteq> []" by simp
  from images_become_messages [OF TrueI k, of
      "\<lambda>r. Inr \<lparr>status_code = 200, reason = ''OK'', resp_url = req_url r,
                 json_result = Inr (PDict [(''images'', PList [PStr ''http://x/y.png''])])\<rparr>"
      7 "[(''messages'', PList [PDict [(''content'', PStr ''a cat'')]])]"
      "[(''images'', PList [PStr ''http://x/y.png''])]" "[''http://x/y.png'']"]
    fetch_json_ok [of "PDict [(''images'', PList [PStr ''http://x/y.png''])]" 7]
  show ?thesis by simp
qed

text \<open>
  The claim as it was stated fails: \<open>httpAAAA\<close> is base64 text and no HTTP(S) URL, and it
  is emitted as a link, not as a data URL.
\<close>

theorem http_prefix_counterexample:
  "\<not> spec_is_http_url ''httpAAAA''
   \<and> emitted (action (default_valves\<lparr>VENICE_API_KEY := ''secret''\<rparr>)
      (\<lambda>r. Inr \<lparr>status_code = 200, reason = ''OK'', resp_url = req_url r,
                 json_result = Inr (PDict [(''images'', PList [PStr ''httpAAAA''])])\<rparr>)
      7 [(''messages'', PList [PDict [(''content'', PStr ''a cat'')]])] True)
     = [Status ''Generating image...'' False,
        Message ''![image](httpAAAA)'' ''assistant'',
        Status ''Image generated!'' True]"
proof -
  obtain reqs where f: "fetch_json (default_valves\<lparr>VENICE_API_KEY := ''secret''\<rparr>)
      (\<lambda>r. Inr \<lparr>status_code = 200, reason = ''OK'', resp_url = req_url r,
                 json_result = Inr (PDict [(''images'', PList [PStr ''httpAAAA''])])\<rparr>)
      7 [(''messages'', PList [PDict [(''content'', PStr ''a cat'')]])]
      = (reqs, Inr (PDict [(''images'', PList [PStr ''httpAAAA''])]))"
    using fetch_json_ok [of "PDict [(''images'', PList [PStr ''httpAAAA''])]" 7]
    by (metis prod.collapse)
  have "image_entries (PDict [(''images'', PList [PStr ''httpAAAA''])]) = Inr (map PStr [''httpAAAA''])"
    by simp
  from try_block_of_json [OF f this] show ?thesis
    by (simp add: action_def spec_is_http_url_def image_markdown_eq)
qed

subsection \<open>The base64 branch\<close>

text \<open>
  C10: for every string, \<^verbatim>\<open>_process_base64_image\<close> returns the markdown image with the
  data URL of the input; the body of its \<^verbatim>\<open>try\<close> never raises, so the result never is the
  error text.
\<close>

theorem process_base64_image_total:
  "process_base64_image image_data = ''![image](data:image/png;base64,'' @ image_data @ '')''
   \<and> (\<forall>e. base64_data_url image_data \<noteq> Inl e)
   \<and> \<not> prefix ''Error processing image'' (process_base64_image image_data)"
  by (simp add: process_base64_image_def base64_data_url_def)

end
